theory Spec2Isabelle
  imports
    Complex_Main
    "HOL-Library.Word"
    "HOL-Library.Char_ord"
    "HOL-Library.List_Lexorder"
    "HOL-Library.Multiset"
    "HOL-Library.AList"
    "HOL-Library.Log_Nat"
begin

section \<open>Data model (pkg/dcgmexporter/types.go)\<close>

text \<open>
  Go maps are modelled as association lists: the order of the list is the order in which
  a \<^verbatim>\<open>range\<close> loop visits the map, which Go leaves unspecified, so a statement
  about every list covers every iteration order. A list stands for a Go map when its keys
  are pairwise distinct.
\<close>

type_synonym error = string

type_synonym StringMap = "(string \<times> string) list"

record Counter =
  FieldID :: "16 word"
  FieldName :: string
  PromType :: string
  Help :: string

record Metric =
  Counter :: Counter
  Value :: string
  GPU :: string
  GPUUUID :: string
  GPUDevice :: string
  GPUModelName :: string
  GPUPCIBusID :: string
  UUID :: string
  MigProfile :: string
  GPUInstanceID :: string
  Hostname :: string
  Labels :: StringMap
  Attributes :: StringMap

type_synonym MetricsByCounter = "(Counter \<times> Metric list) list"

definition wf_map :: "('k \<times> 'v) list \<Rightarrow> bool" where
  "wf_map kvs = distinct (map fst kvs)"

text \<open>\<^verbatim>\<open>m[k]\<close> on a \<^verbatim>\<open>map[string]string\<close>: the zero value when the key is absent.\<close>

definition index_str :: "StringMap \<Rightarrow> string \<Rightarrow> string" where
  "index_str kvs k = (case map_of kvs k of None \<Rightarrow> [] | Some v \<Rightarrow> v)"

text \<open>
  The second half of \<^verbatim>\<open>metricFingerprint\<close>, once for the labels and once for the
  attributes: collect the keys, \<^verbatim>\<open>sort.Strings\<close> them (byte-wise lexicographic
  order, the order of \<^typ>\<open>string\<close> here), and print \<^verbatim>\<open>"%s=%s,"\<close> per key.
\<close>

definition sortedPairs :: "StringMap \<Rightarrow> string" where
  "sortedPairs kvs =
     concat (map (\<lambda>k. k @ ''='' @ index_str kvs k @ '','') (sort (map fst kvs)))"

definition metricFingerprint :: "Metric \<Rightarrow> string" where
  "metricFingerprint m =
     ''name='' @ FieldName (Counter m) @ '','' @
     ''gpu='' @ GPU m @ '','' @
     ''gpu_uuid='' @ GPUUUID m @ '','' @
     ''gpu_device='' @ GPUDevice m @ '','' @
     ''gpu_model_name='' @ GPUModelName m @ '','' @
     ''gpu_pci_bus_id='' @ GPUPCIBusID m @ '','' @
     ''uuid='' @ UUID m @ '','' @
     ''mig_profile='' @ MigProfile m @ '','' @
     ''gpu_instance_id='' @ GPUInstanceID m @ '','' @
     ''hostname='' @ Hostname m @ '','' @
     sortedPairs (Labels m) @
     sortedPairs (Attributes m)"


section \<open>float64 arithmetic\<close>

text \<open>
  The accumulator holds Go \<^verbatim>\<open>float64\<close> values and adds to them with \<^verbatim>\<open>+=\<close>.
  A finite double is modelled by the rational number it denotes, and addition rounds the
  exact sum to the nearest double, ties to the even significand (IEEE 754 binary64:
  a 53-bit significand, exponents from -1022 to 1023, subnormals spaced 2 to the
  power -1074 apart). The rounded significand \<open>m\<close> lies between \<open>2^52\<close> and
  \<open>2^53\<close> for a normal number, so the result reaches \<open>2^1024\<close>, and overflows to an
  infinity, exactly when the exponent is 1024 or more, or is 1023 with \<open>m = 2^53\<close>.
  The sign of zero is not modelled.
\<close>

datatype float64 = Finite rat | PosInf | NegInf | NaN

definition pow2 :: "int \<Rightarrow> rat" where
  "pow2 e = (if 0 \<le> e then 2 ^ nat e else 1 / 2 ^ nat (- e))"

text \<open>For a positive \<open>q\<close>, the exponent \<open>e\<close> with \<open>pow2 e \<le> q < pow2 (e + 1)\<close>.\<close>

definition floorlog2 :: "rat \<Rightarrow> int" where
  "floorlog2 q =
     (let (n, d) = quotient_of q; e = bitlen n - bitlen d
      in if pow2 e \<le> q then e else e - 1)"

definition round_half_even :: "rat \<Rightarrow> int" where
  "round_half_even q =
     (let f = \<lfloor>q\<rfloor>; r = q - of_int f
      in if r < 1 / 2 then f else if 1 / 2 < r then f + 1
         else if even f then f else f + 1)"

definition round64 :: "rat \<Rightarrow> float64" where
  "round64 q =
     (if q = 0 then Finite 0
      else
        let a = \<bar>q\<bar>;
            e = max (floorlog2 a) (- 1022);
            ulp = pow2 (e - 52);
            m = round_half_even (a / ulp);
            r = of_int m * ulp
        in if 1024 \<le> e \<or> (e = 1023 \<and> 2 ^ 53 \<le> m) then (if 0 < q then PosInf else NegInf)
           else Finite (if 0 < q then r else - r))"

fun fadd :: "float64 \<Rightarrow> float64 \<Rightarrow> float64" where
  "fadd NaN _ = NaN"
| "fadd _ NaN = NaN"
| "fadd PosInf NegInf = NaN"
| "fadd NegInf PosInf = NaN"
| "fadd PosInf _ = PosInf"
| "fadd _ PosInf = PosInf"
| "fadd NegInf _ = NegInf"
| "fadd _ NegInf = NegInf"
| "fadd (Finite a) (Finite b) = round64 (a + b)"

section \<open>Library functions taken as parameters\<close>

text \<open>
  \<^verbatim>\<open>strconv.ParseFloat(s, 64)\<close> (\<open>None\<close> when it returns an error),
  \<^verbatim>\<open>strconv.FormatFloat(x, 'f', -1, 64)\<close> and \<^verbatim>\<open>strings.ToLower\<close> belong to the Go
  standard library; the pipeline is modelled for any functions in their place.
\<close>

record Lib =
  ParseFloat :: "string \<Rightarrow> float64 option"
  FormatFloat :: "float64 \<Rightarrow> string"
  ToLower :: "string \<Rightarrow> string"

section \<open>The pipeline and what surrounds it\<close>

datatype panic =
  IndexOutOfRange
  | NilMapAssignment
  | NilPointerDereference
  | InstrumentNotFound string string
  | ValueParseFailure string

text \<open>
  A push instrument handle of the metering backend, with the name and the description
  it was created with. \<open>Meter\<close> is \<^verbatim>\<open>config.OtelMeter\<close>: its three constructors may
  refuse to create an instrument.
\<close>

datatype instrument = Instrument string string

type_synonym attrs = "(string \<times> string) list"

record Meter =
  Float64Gauge :: "string \<Rightarrow> string \<Rightarrow> error + instrument"
  Float64Counter :: "string \<Rightarrow> string \<Rightarrow> error + instrument"
  Float64Histogram :: "string \<Rightarrow> string \<Rightarrow> error + instrument"

record OtelMeters =
  Gauge :: "string \<rightharpoonup> instrument"
  Counter' :: "string \<rightharpoonup> instrument"
  Histogram :: "string \<rightharpoonup> instrument"

text \<open>What reaches the push sink: \<^verbatim>\<open>c.Add\<close>, \<^verbatim>\<open>g.Record\<close> and \<^verbatim>\<open>h.Record\<close>.\<close>

datatype emission =
  CounterAdd instrument float64 attrs
  | GaugeRecord instrument float64 attrs
  | HistogramRecord instrument float64 attrs

record Config =
  OtelMeter :: "Meter option"

text \<open>
  A collector as one cycle sees it: the system information it resolved and the answer
  its \<^verbatim>\<open>GetMetrics\<close> gives in this cycle. A transform stage returns the grouping it
  has enriched in place, or its error.
\<close>

record 'si DCGMCollector =
  SysInfo :: 'si
  GetMetrics :: "error + MetricsByCounter"

record 'si Transform =
  Process :: "MetricsByCounter \<Rightarrow> 'si \<Rightarrow> error + MetricsByCounter"
  Name :: string

text \<open>
  A parsed template, as \<^verbatim>\<open>Execute\<close> on a fresh buffer: the error, or the text
  written.
\<close>

type_synonym Template = "MetricsByCounter \<Rightarrow> error + string"

record 'si MetricsPipeline =
  config :: Config
  transformations :: "'si Transform list"
  migMetricsFormat :: Template
  switchMetricsFormat :: Template
  linkMetricsFormat :: Template
  cpuMetricsFormat :: Template
  cpuCoreMetricsFormat :: Template
  counters :: "Counter list"
  gpuCollector :: "'si DCGMCollector option"
  switchCollector :: "'si DCGMCollector option"
  linkCollector :: "'si DCGMCollector option"
  cpuCollector :: "'si DCGMCollector option"
  coreCollector :: "'si DCGMCollector option"
  otelMeters :: "OtelMeters option"
  gpuCounters :: "(string \<rightharpoonup> float64) option"

section \<open>Rendering\<close>

definition FormatMetrics :: "Template \<Rightarrow> MetricsByCounter \<Rightarrow> string \<times> error option" where
  "FormatMetrics t groupedMetrics =
     (case t groupedMetrics of
        Inl err \<Rightarrow> ('''', Some err)
      | Inr res \<Rightarrow> (res, None))"

section \<open>Meter emitter\<close>

text \<open>
  \<^verbatim>\<open>OtelObserve\<close> lower-cases the keys of \<open>attrs\<close> in place, so the caller's slice
  changes too: the function returns it beside the sink.
\<close>

definition OtelObserve ::
  "Lib \<Rightarrow> 'si MetricsPipeline \<Rightarrow> Counter \<Rightarrow> Metric \<Rightarrow> attrs \<Rightarrow> emission list
     \<Rightarrow> panic + (attrs \<times> emission list)" where
  "OtelObserve lib m counter metricVal attrs sink =
     (let attrs = map (\<lambda>(k, v). (ToLower lib k, v)) attrs;
          fieldName = ToLower lib (FieldName counter)
      in if PromType counter = ''counter'' then
           (case otelMeters m of
              None \<Rightarrow> Inl NilPointerDereference
            | Some om \<Rightarrow>
               (case Counter' om fieldName of
                  None \<Rightarrow> Inl (InstrumentNotFound ''Counter'' fieldName)
                | Some c \<Rightarrow>
                   (case ParseFloat lib (Value metricVal) of
                      None \<Rightarrow> Inl (ValueParseFailure (Value metricVal))
                    | Some val \<Rightarrow> Inr (attrs, sink @ [CounterAdd c val attrs]))))
         else if PromType counter = ''gauge'' then
           (case otelMeters m of
              None \<Rightarrow> Inl NilPointerDereference
            | Some om \<Rightarrow>
               (case Gauge om fieldName of
                  None \<Rightarrow> Inl (InstrumentNotFound ''Gauge'' fieldName)
                | Some g \<Rightarrow>
                   (case ParseFloat lib (Value metricVal) of
                      None \<Rightarrow> Inl (ValueParseFailure (Value metricVal))
                    | Some val \<Rightarrow> Inr (attrs, sink @ [GaugeRecord g val attrs]))))
         else if PromType counter = ''histogram'' then
           (case otelMeters m of
              None \<Rightarrow> Inl NilPointerDereference
            | Some om \<Rightarrow>
               (case Histogram om fieldName of
                  None \<Rightarrow> Inl (InstrumentNotFound ''Histogram'' fieldName)
                | Some h \<Rightarrow>
                   (case ParseFloat lib (Value metricVal) of
                      None \<Rightarrow> Inl (ValueParseFailure (Value metricVal))
                    | Some val \<Rightarrow> Inr (attrs, sink @ [HistogramRecord h val attrs]))))
         else Inr (attrs, sink))"

text \<open>
  The five \<^verbatim>\<open>OtelObserve...Metrics\<close> functions are one loop nest that differs only
  in the fixed attributes put before the labels; \<open>observeEach\<close> is the inner loop over
  one counter's metrics (the slice \<open>attrs\<close> is created once per counter and only ever
  appended to), \<open>observeAll\<close> the outer loop over the map, which reads
  \<^verbatim>\<open>metricVals[0]\<close> before anything else.
\<close>

fun observeEach ::
  "Lib \<Rightarrow> 'si MetricsPipeline \<Rightarrow> (Metric \<Rightarrow> attrs) \<Rightarrow> Counter \<Rightarrow> attrs
     \<Rightarrow> emission list \<Rightarrow> Metric list \<Rightarrow> panic + emission list" where
  "observeEach lib m fixed counter attrs sink [] = Inr sink"
| "observeEach lib m fixed counter attrs sink (metricVal # rest) =
     (case OtelObserve lib m counter metricVal
             (attrs @ fixed metricVal @ Labels metricVal @ Attributes metricVal) sink of
        Inl p \<Rightarrow> Inl p
      | Inr (attrs', sink') \<Rightarrow> observeEach lib m fixed counter attrs' sink' rest)"

fun observeAll ::
  "Lib \<Rightarrow> 'si MetricsPipeline \<Rightarrow> (Metric \<Rightarrow> attrs) \<Rightarrow> MetricsByCounter
     \<Rightarrow> emission list \<Rightarrow> panic + emission list" where
  "observeAll lib m fixed [] sink = Inr sink"
| "observeAll lib m fixed ((counter, metricVals) # rest) sink =
     (case metricVals of
        [] \<Rightarrow> Inl IndexOutOfRange
      | _ # _ \<Rightarrow>
         (case observeEach lib m fixed counter [] sink metricVals of
            Inl p \<Rightarrow> Inl p
          | Inr sink' \<Rightarrow> observeAll lib m fixed rest sink'))"

definition gpuAttrs :: "Metric \<Rightarrow> attrs" where
  "gpuAttrs metricVal =
     [(''gpu'', GPU metricVal), (UUID metricVal, GPUUUID metricVal),
      (''pci_bus_id'', GPUPCIBusID metricVal), (''device'', GPUDevice metricVal),
      (''modelName'', GPUModelName metricVal)] @
     (if MigProfile metricVal \<noteq> '''' then
        [(''GPU_I_PROFILE'', MigProfile metricVal), (''GPU_I_ID'', GPUInstanceID metricVal)]
      else []) @
     (if Hostname metricVal \<noteq> '''' then [(''Hostname'', Hostname metricVal)] else [])"

definition switchAttrs :: "Metric \<Rightarrow> attrs" where
  "switchAttrs metricVal =
     [(''nvswitch'', GPU metricVal)] @
     (if Hostname metricVal \<noteq> '''' then [(''Hostname'', Hostname metricVal)] else [])"

definition linkAttrs :: "Metric \<Rightarrow> attrs" where
  "linkAttrs metricVal =
     [(''nvlink'', GPU metricVal), (''nvswitch'', GPUDevice metricVal)] @
     (if Hostname metricVal \<noteq> '''' then [(''Hostname'', Hostname metricVal)] else [])"

definition cpuAttrs :: "Metric \<Rightarrow> attrs" where
  "cpuAttrs metricVal =
     [(''cpu'', GPU metricVal)] @
     (if Hostname metricVal \<noteq> '''' then [(''Hostname'', Hostname metricVal)] else [])"

definition cpuCoreAttrs :: "Metric \<Rightarrow> attrs" where
  "cpuCoreAttrs metricVal =
     [(''cpucore'', GPU metricVal), (''cpu'', GPUDevice metricVal)] @
     (if Hostname metricVal \<noteq> '''' then [(''Hostname'', Hostname metricVal)] else [])"

definition OtelObserveGpuMetrics ::
  "Lib \<Rightarrow> 'si MetricsPipeline \<Rightarrow> MetricsByCounter \<Rightarrow> emission list
     \<Rightarrow> panic + emission list" where
  "OtelObserveGpuMetrics lib m metrics sink = observeAll lib m gpuAttrs metrics sink"

definition OtelObserveSwitchMetrics ::
  "Lib \<Rightarrow> 'si MetricsPipeline \<Rightarrow> MetricsByCounter \<Rightarrow> emission list
     \<Rightarrow> panic + emission list" where
  "OtelObserveSwitchMetrics lib m metrics sink = observeAll lib m switchAttrs metrics sink"

definition OtelObserveLinkMetrics ::
  "Lib \<Rightarrow> 'si MetricsPipeline \<Rightarrow> MetricsByCounter \<Rightarrow> emission list
     \<Rightarrow> panic + emission list" where
  "OtelObserveLinkMetrics lib m metrics sink = observeAll lib m linkAttrs metrics sink"

definition OtelObserveCpuMetrics ::
  "Lib \<Rightarrow> 'si MetricsPipeline \<Rightarrow> MetricsByCounter \<Rightarrow> emission list
     \<Rightarrow> panic + emission list" where
  "OtelObserveCpuMetrics lib m metrics sink = observeAll lib m cpuAttrs metrics sink"

definition OtelObserveCpuCoreMetrics ::
  "Lib \<Rightarrow> 'si MetricsPipeline \<Rightarrow> MetricsByCounter \<Rightarrow> emission list
     \<Rightarrow> panic + emission list" where
  "OtelObserveCpuCoreMetrics lib m metrics sink = observeAll lib m cpuCoreAttrs metrics sink"

section \<open>Counter accumulator\<close>

text \<open>
  The derived counter of \<^verbatim>\<open>run\<close>: a copy of the counter with the field name
  suffixed and the type forced.
\<close>

definition newCounterOf :: "Counter \<Rightarrow> Counter" where
  "newCounterOf counter = counter\<lparr>FieldName := FieldName counter @ ''_COUNTER'', PromType := ''counter''\<rparr>"

text \<open>\<^verbatim>\<open>m.gpuCounters[fp]\<close> read: the zero value when the fingerprint is absent.\<close>

definition index_float :: "(string \<rightharpoonup> float64) \<Rightarrow> string \<Rightarrow> float64" where
  "index_float g fp = (case g fp of None \<Rightarrow> Finite 0 | Some a \<Rightarrow> a)"

text \<open>
  The inner loop over one counter's metrics. \<open>gc\<close> is \<^verbatim>\<open>m.gpuCounters\<close>, \<open>None\<close>
  for the nil map that \<^verbatim>\<open>NewMetricsPipelineWithGPUCollector\<close> leaves there: writing
  to it panics. The result is the map and \<^verbatim>\<open>newMetrics\<close>.
\<close>

fun accumulate ::
  "Lib \<Rightarrow> Counter \<Rightarrow> (string \<rightharpoonup> float64) option \<Rightarrow> Metric list
     \<Rightarrow> panic + ((string \<rightharpoonup> float64) option \<times> Metric list)" where
  "accumulate lib newCounter gc [] = Inr (gc, [])"
| "accumulate lib newCounter gc (metricVal # rest) =
     (let fp = metricFingerprint metricVal
      in case ParseFloat lib (Value metricVal) of
           None \<Rightarrow> accumulate lib newCounter gc rest
         | Some val \<Rightarrow>
            (case gc of
               None \<Rightarrow> Inl NilMapAssignment
             | Some g \<Rightarrow>
                (let g' = g(fp \<mapsto> fadd (index_float g fp) val);
                     newMetricVal = metricVal\<lparr>Counter := newCounter,
                                               Value := FormatFloat lib (index_float g' fp)\<rparr>
                 in case accumulate lib newCounter (Some g') rest of
                      Inl p \<Rightarrow> Inl p
                    | Inr (gc', newMetrics) \<Rightarrow> Inr (gc', newMetricVal # newMetrics))))"

text \<open>
  The outer loop ranges over \<open>metrics\<close> and writes into \<open>extended\<close>, its clone:
  \<^verbatim>\<open>extended[newCounter] = newMetrics\<close> replaces the entry of a key that is there
  already.
\<close>

fun extendLoop ::
  "Lib \<Rightarrow> (string \<rightharpoonup> float64) option \<Rightarrow> MetricsByCounter \<Rightarrow> MetricsByCounter
     \<Rightarrow> panic + ((string \<rightharpoonup> float64) option \<times> MetricsByCounter)" where
  "extendLoop lib gc extended [] = Inr (gc, extended)"
| "extendLoop lib gc extended ((counter, metricVals) # rest) =
     (case accumulate lib (newCounterOf counter) gc metricVals of
        Inl p \<Rightarrow> Inl p
      | Inr (gc', newMetrics) \<Rightarrow>
         extendLoop lib gc' (AList.update (newCounterOf counter) newMetrics extended) rest)"

definition extendMetrics ::
  "Lib \<Rightarrow> (string \<rightharpoonup> float64) option \<Rightarrow> MetricsByCounter
     \<Rightarrow> panic + ((string \<rightharpoonup> float64) option \<times> MetricsByCounter)" where
  "extendMetrics lib gc metrics = extendLoop lib gc metrics metrics"

section \<open>One cycle\<close>

text \<open>
  \<^verbatim>\<open>run\<close> returns its text and its error, and leaves the pipeline (the accumulator)
  and the push sink changed; or it panics.
\<close>

datatype 'si outcome =
  Panicked panic
  | Returned string "error option" "'si MetricsPipeline" "emission list"

fun applyTransformations ::
  "'si Transform list \<Rightarrow> MetricsByCounter \<Rightarrow> 'si \<Rightarrow> error + MetricsByCounter" where
  "applyTransformations [] metrics sysInfo = Inr metrics"
| "applyTransformations (transform # rest) metrics sysInfo =
     (case Process transform metrics sysInfo of
        Inl err \<Rightarrow>
          Inl (''failed to transform metrics for transform '' @ [CHR 0x27] @ Name transform @
               [CHR 0x27] @ ''; err: '' @ err)
      | Inr metrics' \<Rightarrow> applyTransformations rest metrics' sysInfo)"

text \<open>
  The blocks of \<^verbatim>\<open>run\<close> for the switch, link, CPU and CPU-core groups are the same
  code with another collector, emitter, template and message; \<open>collectGroup\<close> is that
  block, and \<open>rest\<close> is the code that follows it.
\<close>

definition collectGroup ::
  "Lib \<Rightarrow> 'si MetricsPipeline \<Rightarrow> 'si DCGMCollector option
     \<Rightarrow> (Lib \<Rightarrow> 'si MetricsPipeline \<Rightarrow> MetricsByCounter \<Rightarrow> emission list \<Rightarrow> panic + emission list)
     \<Rightarrow> Template \<Rightarrow> string \<Rightarrow> string \<Rightarrow> emission list
     \<Rightarrow> (string \<Rightarrow> emission list \<Rightarrow> 'si outcome) \<Rightarrow> 'si outcome" where
  "collectGroup lib m collector observe template what formatted sink rest =
     (case collector of
        None \<Rightarrow> rest formatted sink
      | Some c \<Rightarrow>
         (case GetMetrics c of
            Inl err \<Rightarrow>
              Returned '''' (Some (''failed to collect '' @ what @ '' metrics; err: '' @ err)) m sink
          | Inr metrics \<Rightarrow>
             (case (if OtelMeter (config m) \<noteq> None then observe lib m metrics sink
                    else Inr sink) of
                Inl p \<Rightarrow> Panicked p
              | Inr sink' \<Rightarrow>
                 (if metrics \<noteq> [] then
                    rest (formatted @ fst (FormatMetrics template metrics)) sink'
                  else rest formatted sink'))))"

definition run_core :: "Lib \<Rightarrow> 'si MetricsPipeline \<Rightarrow> string \<Rightarrow> emission list \<Rightarrow> 'si outcome" where
  "run_core lib m formatted sink =
     collectGroup lib m (coreCollector m) OtelObserveCpuCoreMetrics (cpuCoreMetricsFormat m)
       ''CPU core'' formatted sink
       (\<lambda>formatted sink. Returned formatted None m sink)"

definition run_cpu :: "Lib \<Rightarrow> 'si MetricsPipeline \<Rightarrow> string \<Rightarrow> emission list \<Rightarrow> 'si outcome" where
  "run_cpu lib m formatted sink =
     collectGroup lib m (cpuCollector m) OtelObserveCpuMetrics (cpuMetricsFormat m)
       ''CPU'' formatted sink (run_core lib m)"

definition run_link :: "Lib \<Rightarrow> 'si MetricsPipeline \<Rightarrow> string \<Rightarrow> emission list \<Rightarrow> 'si outcome" where
  "run_link lib m formatted sink =
     collectGroup lib m (linkCollector m) OtelObserveLinkMetrics (linkMetricsFormat m)
       ''link'' formatted sink (run_cpu lib m)"

definition run_switch :: "Lib \<Rightarrow> 'si MetricsPipeline \<Rightarrow> string \<Rightarrow> emission list \<Rightarrow> 'si outcome" where
  "run_switch lib m formatted sink =
     collectGroup lib m (switchCollector m) OtelObserveSwitchMetrics (switchMetricsFormat m)
       ''switch'' formatted sink (run_link lib m)"

definition run :: "Lib \<Rightarrow> 'si MetricsPipeline \<Rightarrow> emission list \<Rightarrow> 'si outcome" where
  "run lib m sink =
     (case gpuCollector m of
        None \<Rightarrow> run_switch lib m '''' sink
      | Some c \<Rightarrow>
         (case GetMetrics c of
            Inl err \<Rightarrow> Returned '''' (Some (''failed to collect gpu metrics; err: '' @ err)) m sink
          | Inr metrics \<Rightarrow>
             (case applyTransformations (transformations m) metrics (SysInfo c) of
                Inl err \<Rightarrow> Returned '''' (Some err) m sink
              | Inr metrics \<Rightarrow>
                 (case (if OtelMeter (config m) \<noteq> None then OtelObserveGpuMetrics lib m metrics sink
                        else Inr sink) of
                    Inl p \<Rightarrow> Panicked p
                  | Inr sink' \<Rightarrow>
                     (case extendMetrics lib (gpuCounters m) metrics of
                        Inl p \<Rightarrow> Panicked p
                      | Inr (gc', extended) \<Rightarrow>
                         (let m' = m\<lparr>gpuCounters := gc'\<rparr>
                          in case FormatMetrics (migMetricsFormat m') extended of
                               (_, Some err) \<Rightarrow>
                                 Returned '''' (Some (''failed to format metrics; err: '' @ err)) m' sink'
                             | (formatted, None) \<Rightarrow> run_switch lib m' formatted sink'))))))"

section \<open>The scheduler\<close>

text \<open>
  The output channel is its buffer and its capacity. A send finds room in the buffer, or
  it blocks until a receiver takes an element.
\<close>

record chan =
  buf :: "string list"
  cap :: nat

datatype send = Sent chan | Blocks

definition chan_send :: "chan \<Rightarrow> string \<Rightarrow> send" where
  "chan_send out s = (if length (buf out) < cap out then Sent (out\<lparr>buf := buf out @ [s]\<rparr>) else Blocks)"

text \<open>
  One iteration of the loop of \<^verbatim>\<open>Run\<close> when the ticker fires (the branch
  \<^verbatim>\<open>case <-t.C\<close>): the cycle, then the push. The result tells whether the iteration
  got through or is held at a send, with the channel, the lines logged, the pipeline
  and the push sink.
\<close>

datatype 'si iteration =
  IterationPanicked panic
  | IterationBlocked "string list" "'si MetricsPipeline" "emission list"
  | IterationDone chan "string list" "'si MetricsPipeline" "emission list"

definition Run_tick :: "Lib \<Rightarrow> 'si MetricsPipeline \<Rightarrow> emission list \<Rightarrow> chan \<Rightarrow> 'si iteration" where
  "Run_tick lib m sink out =
     (case run lib m sink of
        Panicked p \<Rightarrow> IterationPanicked p
      | Returned o' err m' sink' \<Rightarrow>
         (case err of
            Some e \<Rightarrow>
              (case chan_send out '''' of
                 Blocks \<Rightarrow> IterationBlocked [''Failed to collect metrics; err: '' @ e] m' sink'
               | Sent out' \<Rightarrow> IterationDone out' [''Failed to collect metrics; err: '' @ e] m' sink')
          | None \<Rightarrow>
              (if length (buf out) = cap out then
                 IterationDone out [''Channel is full skipping.''] m' sink'
               else
                 (case chan_send out o' of
                    Blocks \<Rightarrow> IterationBlocked [] m' sink'
                  | Sent out' \<Rightarrow> IterationDone out' [] m' sink'))))"

section \<open>Construction\<close>

text \<open>
  The loop of \<^verbatim>\<open>NewMetricsPipeline\<close> that registers one instrument per configured
  counter, by its type, under the lower-cased field name.
\<close>

fun registerCounters ::
  "Lib \<Rightarrow> Meter \<Rightarrow> OtelMeters \<Rightarrow> Counter list \<Rightarrow> error + OtelMeters" where
  "registerCounters lib meter om [] = Inr om"
| "registerCounters lib meter om (counter # rest) =
     (let fieldName = ToLower lib (FieldName counter)
      in if PromType counter = ''gauge'' then
           (case Float64Gauge meter fieldName (Help counter) of
              Inl err \<Rightarrow>
                Inl (''failed to create gauge metric '' @ FieldName counter @ '': '' @ err)
            | Inr g \<Rightarrow>
                registerCounters lib meter (om\<lparr>Gauge := (Gauge om)(fieldName \<mapsto> g)\<rparr>) rest)
         else if PromType counter = ''counter'' then
           (case Float64Counter meter fieldName (Help counter) of
              Inl err \<Rightarrow>
                Inl (''failed to create counter metric '' @ FieldName counter @ '': '' @ err)
            | Inr c \<Rightarrow>
                registerCounters lib meter (om\<lparr>Counter' := (Counter' om)(fieldName \<mapsto> c)\<rparr>) rest)
         else if PromType counter = ''histogram'' then
           (case Float64Histogram meter fieldName (Help counter) of
              Inl err \<Rightarrow>
                Inl (''failed to create histogram metric '' @ FieldName counter @ '': '' @ err)
            | Inr h \<Rightarrow>
                registerCounters lib meter (om\<lparr>Histogram := (Histogram om)(fieldName \<mapsto> h)\<rparr>) rest)
         else registerCounters lib meter om rest)"

text \<open>
  \<^verbatim>\<open>NewMetricsPipeline\<close>. The collectors, the transformations and the parsed templates
  come from constructors outside this code; \<open>parts\<close> holds them, and the function fills
  in the configuration, the counters, the instrument registry and the empty accumulator.
\<close>

definition NewMetricsPipeline ::
  "Lib \<Rightarrow> Config \<Rightarrow> Counter list \<Rightarrow> 'si MetricsPipeline \<Rightarrow> error + 'si MetricsPipeline" where
  "NewMetricsPipeline lib cfg cs parts =
     (case OtelMeter cfg of
        None \<Rightarrow>
          Inr (parts\<lparr>config := cfg, counters := cs, otelMeters := None,
                     gpuCounters := Some Map.empty\<rparr>)
      | Some meter \<Rightarrow>
         (case registerCounters lib meter
                 \<lparr>Gauge = Map.empty, Counter' = Map.empty, Histogram = Map.empty\<rparr> cs of
            Inl err \<Rightarrow> Inl err
          | Inr om \<Rightarrow>
              Inr (parts\<lparr>config := cfg, counters := cs, otelMeters := Some om,
                         gpuCounters := Some Map.empty\<rparr>)))"

section \<open>Auxiliary notions for the statements\<close>

text \<open>
  What the accumulator loops compute when the map is there: one step of the map per
  metric, and the derived metrics of one counter.
\<close>

definition acc_step :: "Lib \<Rightarrow> (string \<rightharpoonup> float64) \<Rightarrow> Metric \<Rightarrow> (string \<rightharpoonup> float64)" where
  "acc_step lib g metricVal =
     (case ParseFloat lib (Value metricVal) of
        None \<Rightarrow> g
      | Some val \<Rightarrow>
          g(metricFingerprint metricVal \<mapsto> fadd (index_float g (metricFingerprint metricVal)) val))"

fun derived :: "Lib \<Rightarrow> Counter \<Rightarrow> (string \<rightharpoonup> float64) \<Rightarrow> Metric list \<Rightarrow> Metric list" where
  "derived lib newCounter g [] = []"
| "derived lib newCounter g (metricVal # rest) =
     (case ParseFloat lib (Value metricVal) of
        None \<Rightarrow> derived lib newCounter g rest
      | Some val \<Rightarrow>
          metricVal\<lparr>Counter := newCounter,
                    Value := FormatFloat lib
                      (fadd (index_float g (metricFingerprint metricVal)) val)\<rparr>
          # derived lib newCounter (acc_step lib g metricVal) rest)"

definition parses :: "Lib \<Rightarrow> Metric \<Rightarrow> bool" where
  "parses lib metricVal = (ParseFloat lib (Value metricVal) \<noteq> None)"

text \<open>A grouping with the metrics of unparseable value left out of every list.\<close>

definition parseableOnly :: "Lib \<Rightarrow> MetricsByCounter \<Rightarrow> MetricsByCounter" where
  "parseableOnly lib metrics = map (\<lambda>(counter, metricVals). (counter, filter (parses lib) metricVals)) metrics"

text \<open>The metrics of a grouping in the order in which the loops visit them.\<close>

definition visited :: "MetricsByCounter \<Rightarrow> Metric list" where
  "visited metrics = concat (map snd metrics)"

definition derivedKeys :: "MetricsByCounter \<Rightarrow> Counter set" where
  "derivedKeys metrics = newCounterOf ` fst ` set metrics"

text \<open>The grouping that the outer loop builds when the map is there.\<close>

fun extendPure ::
  "Lib \<Rightarrow> (string \<rightharpoonup> float64) \<Rightarrow> MetricsByCounter \<Rightarrow> MetricsByCounter \<Rightarrow> MetricsByCounter" where
  "extendPure lib g extended [] = extended"
| "extendPure lib g extended ((counter, metricVals) # rest) =
     extendPure lib (foldl (acc_step lib) g metricVals)
       (AList.update (newCounterOf counter) (derived lib (newCounterOf counter) g metricVals) extended)
       rest"


text \<open>
  The instrument that \<^verbatim>\<open>OtelObserve\<close> looks up for a counter: the one registered for
  the counter's type under the lower-cased field name, where there is a registry.
\<close>

definition lookupInstrument :: "Lib \<Rightarrow> OtelMeters \<Rightarrow> Counter \<Rightarrow> instrument option" where
  "lookupInstrument lib om counter =
     (if PromType counter = ''counter'' then Counter' om (ToLower lib (FieldName counter))
      else if PromType counter = ''gauge'' then Gauge om (ToLower lib (FieldName counter))
      else if PromType counter = ''histogram'' then Histogram om (ToLower lib (FieldName counter))
      else None)"

definition instrumentOf :: "Lib \<Rightarrow> 'si MetricsPipeline \<Rightarrow> Counter \<Rightarrow> instrument option" where
  "instrumentOf lib m counter =
     (case otelMeters m of
        None \<Rightarrow> None
      | Some om \<Rightarrow> lookupInstrument lib om counter)"

fun emissionAttrs :: "emission \<Rightarrow> attrs" where
  "emissionAttrs (CounterAdd i val as) = as"
| "emissionAttrs (GaugeRecord i val as) = as"
| "emissionAttrs (HistogramRecord i val as) = as"

text \<open>
  \<open>emitted_for lib m counter metricVal ev\<close>: the emission \<open>ev\<close> is the one that
  \<^verbatim>\<open>OtelObserve\<close> makes for this counter and this metric, whatever the attributes.
\<close>

definition emitted_for :: "Lib \<Rightarrow> 'si MetricsPipeline \<Rightarrow> Counter \<Rightarrow> Metric \<Rightarrow> emission \<Rightarrow> bool" where
  "emitted_for lib m counter metricVal ev =
     (case (instrumentOf lib m counter, ParseFloat lib (Value metricVal)) of
        (Some i, Some val) \<Rightarrow>
          (if PromType counter = ''counter'' then ev = CounterAdd i val (emissionAttrs ev)
           else if PromType counter = ''gauge'' then ev = GaugeRecord i val (emissionAttrs ev)
           else ev = HistogramRecord i val (emissionAttrs ev))
      | _ \<Rightarrow> False)"

definition from_grouping :: "Lib \<Rightarrow> 'si MetricsPipeline \<Rightarrow> MetricsByCounter \<Rightarrow> emission \<Rightarrow> bool" where
  "from_grouping lib m metrics ev =
     (\<exists>(counter, metricVals) \<in> set metrics. \<exists>metricVal \<in> set metricVals.
        emitted_for lib m counter metricVal ev)"

section \<open>Concrete inputs\<close>

text \<open>
  A library instance for the concrete evaluations below: the graphs of
  \<^verbatim>\<open>ParseFloat\<close> and \<^verbatim>\<open>FormatFloat\<close> on the few strings and doubles that occur
  (\<open>0.1\<close> is the double \<open>3602879701896397 / 2^55\<close>, and adding it three times gives
  \<open>0.30000000000000004\<close>, the double \<open>5404319552844596 / 2^54\<close>), and \<^verbatim>\<open>ToLower\<close>
  on ASCII letters.
\<close>

definition d01 :: rat where "d01 = 3602879701896397 / 36028797018963968"
definition d02 :: rat where "d02 = 3602879701896397 / 18014398509481984"
definition d03 :: rat where "d03 = 5404319552844596 / 18014398509481984"

definition testParseFloat :: "string \<Rightarrow> float64 option" where
  "testParseFloat s =
     (if s = ''42'' then Some (Finite 42)
      else if s = ''84'' then Some (Finite 84)
      else if s = ''0.1'' then Some (Finite d01)
      else if s = ''0.2'' then Some (Finite d02)
      else if s = ''0.30000000000000004'' then Some (Finite d03)
      else None)"

definition testFormatFloat :: "float64 \<Rightarrow> string" where
  "testFormatFloat x =
     (if x = Finite 42 then ''42''
      else if x = Finite 84 then ''84''
      else if x = Finite d01 then ''0.1''
      else if x = Finite d02 then ''0.2''
      else if x = Finite d03 then ''0.30000000000000004''
      else ''?'')"

definition asciiLower :: "string \<Rightarrow> string" where
  "asciiLower s =
     map (\<lambda>c. if CHR ''A'' \<le> c \<and> c \<le> CHR ''Z'' then char_of (of_char c + (32::nat)) else c) s"

definition testLib :: Lib where
  "testLib = \<lparr>ParseFloat = testParseFloat, FormatFloat = testFormatFloat, ToLower = asciiLower\<rparr>"

definition utilCounter :: Counter where
  "utilCounter = \<lparr>FieldID = 203, FieldName = ''UTIL'', PromType = ''gauge'', Help = ''GPU utilization''\<rparr>"

definition utilMetric :: "string \<Rightarrow> Metric" where
  "utilMetric v =
     \<lparr>Counter = utilCounter, Value = v, GPU = ''0'', GPUUUID = ''GPU-1'', GPUDevice = ''nvidia0'',
      GPUModelName = ''A100'', GPUPCIBusID = ''00:1E.0'', UUID = ''UUID'', MigProfile = '''',
      GPUInstanceID = '''', Hostname = ''node'', Labels = [], Attributes = []\<rparr>"

definition utilCounterTotal :: Counter where
  "utilCounterTotal =
     \<lparr>FieldID = 203, FieldName = ''UTIL_COUNTER'', PromType = ''counter'', Help = ''GPU utilization''\<rparr>"

definition totalMetric :: "string \<Rightarrow> Metric" where
  "totalMetric v = (utilMetric v)\<lparr>Counter := utilCounterTotal\<rparr>"

text \<open>
  A grouping with one series, and one in which a counter is there whose key is the
  derived counter of another key.
\<close>

definition oneSeries :: "string \<Rightarrow> MetricsByCounter" where
  "oneSeries v = [(utilCounter, [utilMetric v])]"

definition clashing :: MetricsByCounter where
  "clashing = [(utilCounter, [utilMetric ''42'']), (utilCounterTotal, [totalMetric ''84''])]"

definition utilFingerprint :: string where
  "utilFingerprint =
     ''name=UTIL,gpu=0,gpu_uuid=GPU-1,gpu_device=nvidia0,gpu_model_name=A100,'' @
     ''gpu_pci_bus_id=00:1E.0,uuid=UUID,mig_profile=,gpu_instance_id=,hostname=node,''"

definition totalFingerprint :: string where
  "totalFingerprint =
     ''name=UTIL_COUNTER,gpu=0,gpu_uuid=GPU-1,gpu_device=nvidia0,gpu_model_name=A100,'' @
     ''gpu_pci_bus_id=00:1E.0,uuid=UUID,mig_profile=,gpu_instance_id=,hostname=node,''"

text \<open>The same metric with its two labels in one iteration order and in the other.\<close>

definition labelledAB :: Metric where
  "labelledAB = (utilMetric ''42'')\<lparr>Labels := [(''zone'', ''a''), (''rack'', ''7'')]\<rparr>"

definition labelledBA :: Metric where
  "labelledBA = (utilMetric ''42'')\<lparr>Labels := [(''rack'', ''7''), (''zone'', ''a'')]\<rparr>"

text \<open>
  Two templates, one that prints the field names of the grouping and one whose execution
  fails, and a pipeline with no collector, no transformation and no metering backend,
  as \<^verbatim>\<open>NewMetricsPipeline\<close> leaves its accumulator.
\<close>

definition fieldNames :: Template where
  "fieldNames metrics = Inr (concat (map (\<lambda>(counter, metricVals). FieldName counter @ '';'') metrics))"

definition failing :: Template where
  "failing metrics = Inl ''template: execution failed''"

definition idle :: "unit MetricsPipeline" where
  "idle =
     \<lparr>config = \<lparr>OtelMeter = None\<rparr>, transformations = [],
      migMetricsFormat = fieldNames, switchMetricsFormat = fieldNames,
      linkMetricsFormat = fieldNames, cpuMetricsFormat = fieldNames,
      cpuCoreMetricsFormat = fieldNames, counters = [utilCounter],
      gpuCollector = None, switchCollector = None, linkCollector = None,
      cpuCollector = None, coreCollector = None, otelMeters = None,
      gpuCounters = Some Map.empty\<rparr>"


text \<open>
  A metering backend that creates every instrument it is asked for, and the pipeline
  that \<^verbatim>\<open>NewMetricsPipeline\<close> builds with it for the one counter \<open>UTIL\<close>.
\<close>

definition testMeter :: Meter where
  "testMeter =
     \<lparr>Float64Gauge = (\<lambda>name description. Inr (Instrument name description)),
      Float64Counter = (\<lambda>name description. Inr (Instrument name description)),
      Float64Histogram = (\<lambda>name description. Inr (Instrument name description))\<rparr>"

definition utilGauge :: instrument where
  "utilGauge = Instrument ''util'' ''GPU utilization''"

definition metered :: "unit MetricsPipeline" where
  "metered =
     idle\<lparr>config := \<lparr>OtelMeter = Some testMeter\<rparr>, counters := [utilCounter],
          otelMeters := Some \<lparr>Gauge = [''util'' \<mapsto> utilGauge], Counter' = Map.empty,
                               Histogram = Map.empty\<rparr>,
          gpuCounters := Some Map.empty\<rparr>"
section \<open>Fingerprints\<close>

lemma sort_keys_cong:
  assumes "wf_map kvs" and "wf_map kvs'" and "set kvs = set kvs'"
  shows "sort (map fst kvs) = sort (map fst kvs')"
proof -
  have "set (map fst kvs) = set (map fst kvs')"
    using assms(3) by simp
  moreover have "distinct (map fst kvs)" and "distinct (map fst kvs')"
    using assms(1,2) unfolding wf_map_def by blast+
  ultimately have "mset (map fst kvs) = mset (map fst kvs')"
    by (rule iffD1 [OF set_eq_iff_mset_eq_distinct, rotated 2])
  then have "mset (sort (map fst kvs')) = mset (map fst kvs)"
    by simp
  then show ?thesis
    by (rule properties_for_sort) simp
qed

lemma index_str_cong:
  assumes "wf_map kvs" and "wf_map kvs'" and "set kvs = set kvs'"
  shows "index_str kvs = index_str kvs'"
proof -
  have "map_of kvs = map_of kvs'"
    using assms unfolding wf_map_def by (simp add: map_of_inject_set)
  then show ?thesis
    by (simp add: index_str_def fun_eq_iff)
qed

lemma sortedPairs_cong:
  assumes "wf_map kvs" and "wf_map kvs'" and "set kvs = set kvs'"
  shows "sortedPairs kvs = sortedPairs kvs'"
  unfolding sortedPairs_def
  using sort_keys_cong [OF assms] index_str_cong [OF assms] by simp

text \<open>
  C7. Two metrics that agree on the counter's field name, on every entity identifier
  and on the hostname, and whose label maps and attribute maps hold the same key/value
  pairs (in whatever iteration order), have the same fingerprint.
\<close>

theorem C7_fingerprint_order_independent:
  assumes "FieldName (Counter m1) = FieldName (Counter m2)"
    and "GPU m1 = GPU m2" and "GPUUUID m1 = GPUUUID m2"
    and "GPUDevice m1 = GPUDevice m2" and "GPUModelName m1 = GPUModelName m2"
    and "GPUPCIBusID m1 = GPUPCIBusID m2" and "UUID m1 = UUID m2"
    and "MigProfile m1 = MigProfile m2" and "GPUInstanceID m1 = GPUInstanceID m2"
    and "Hostname m1 = Hostname m2"
    and "wf_map (Labels m1)" and "wf_map (Labels m2)"
    and "set (Labels m1) = set (Labels m2)"
    and "wf_map (Attributes m1)" and "wf_map (Attributes m2)"
    and "set (Attributes m1) = set (Attributes m2)"
  shows "metricFingerprint m1 = metricFingerprint m2"
proof -
  have "sortedPairs (Labels m1) = sortedPairs (Labels m2)"
    using assms(11-13) by (rule sortedPairs_cong)
  moreover have "sortedPairs (Attributes m1) = sortedPairs (Attributes m2)"
    using assms(14-16) by (rule sortedPairs_cong)
  ultimately show ?thesis
    using assms(1-10) by (simp add: metricFingerprint_def)
qed

theorem C7_fingerprint_order_independent_witness:
  "set (Labels labelledAB) = set (Labels labelledBA) \<and> Labels labelledAB \<noteq> Labels labelledBA \<and>
   metricFingerprint labelledAB = metricFingerprint labelledBA"
proof -
  have "metricFingerprint labelledAB = metricFingerprint labelledBA"
    by (rule C7_fingerprint_order_independent)
      (auto simp: labelledAB_def labelledBA_def utilMetric_def wf_map_def)
  then show ?thesis
    by (auto simp: labelledAB_def labelledBA_def)
qed

section \<open>The accumulator loops\<close>

lemma index_float_upd [simp]: "index_float (g(fp \<mapsto> a)) fp = a"
  by (simp add: index_float_def)

lemma acc_step_None: "ParseFloat lib (Value mv) = None \<Longrightarrow> acc_step lib g mv = g"
  by (simp add: acc_step_def)

lemma acc_step_Some:
  "ParseFloat lib (Value mv) = Some val \<Longrightarrow>
   acc_step lib g mv = g(metricFingerprint mv \<mapsto> fadd (index_float g (metricFingerprint mv)) val)"
  by (simp add: acc_step_def)

lemma index_float_acc_step:
  "ParseFloat lib (Value mv) = Some val \<Longrightarrow>
   index_float (acc_step lib g mv) (metricFingerprint mv) =
     fadd (index_float g (metricFingerprint mv)) val"
  by (simp add: acc_step_def)

lemma accumulate_Some:
  "accumulate lib nc (Some g) ms = Inr (Some (foldl (acc_step lib) g ms), derived lib nc g ms)"
proof (induction ms arbitrary: g)
  case Nil
  show ?case by simp
next
  case (Cons mv ms)
  show ?case
  proof (cases "ParseFloat lib (Value mv)")
    case None
    then show ?thesis using Cons.IH [of g] by (simp add: acc_step_None)
  next
    case (Some val)
    have "accumulate lib nc (Some (acc_step lib g mv)) ms =
          Inr (Some (foldl (acc_step lib) (acc_step lib g mv) ms),
               derived lib nc (acc_step lib g mv) ms)"
      by (rule Cons.IH)
    then show ?thesis
      using Some
      by (simp add: acc_step_Some [OF Some, symmetric] index_float_acc_step [OF Some] Let_def)
  qed
qed

lemma accumulate_None:
  "accumulate lib nc None ms =
     (if \<exists>mv \<in> set ms. parses lib mv then Inl NilMapAssignment else Inr (None, []))"
proof (induction ms)
  case Nil
  show ?case by simp
next
  case (Cons mv ms)
  show ?case
  proof (cases "ParseFloat lib (Value mv)")
    case None
    then show ?thesis using Cons.IH by (simp add: parses_def)
  next
    case (Some val)
    then show ?thesis by (simp add: parses_def)
  qed
qed


lemma visited_Cons [simp]: "visited ((c, ms) # rest) = ms @ visited rest"
  by (simp add: visited_def)

lemma visited_Nil [simp]: "visited [] = []"
  by (simp add: visited_def)

lemma visited_append [simp]: "visited (xs @ ys) = visited xs @ visited ys"
  by (simp add: visited_def)

lemma derivedKeys_Cons [simp]:
  "derivedKeys ((c, ms) # rest) = insert (newCounterOf c) (derivedKeys rest)"
  by (simp add: derivedKeys_def)

lemma derivedKeys_Nil [simp]: "derivedKeys [] = {}"
  by (simp add: derivedKeys_def)




lemma extendLoop_Some:
  "extendLoop lib (Some g) ext metrics =
     Inr (Some (foldl (acc_step lib) g (visited metrics)), extendPure lib g ext metrics)"
proof (induction metrics arbitrary: g ext)
  case Nil
  show ?case by simp
next
  case (Cons p metrics)
  obtain c ms where p: "p = (c, ms)" by (cases p)
  show ?case
    unfolding p by (simp add: accumulate_Some Cons.IH)
qed

lemma extendMetrics_Some:
  "extendMetrics lib (Some g) metrics =
     Inr (Some (foldl (acc_step lib) g (visited metrics)), extendPure lib g metrics metrics)"
  by (simp add: extendMetrics_def extendLoop_Some)

lemma extendPure_other:
  "k \<notin> derivedKeys metrics \<Longrightarrow> map_of (extendPure lib g ext metrics) k = map_of ext k"
proof (induction metrics arbitrary: g ext)
  case Nil
  show ?case by simp
next
  case (Cons p metrics)
  obtain c ms where p: "p = (c, ms)" by (cases p)
  from Cons.prems have k: "k \<noteq> newCounterOf c" and rest: "k \<notin> derivedKeys metrics"
    unfolding p by auto
  show ?case
    unfolding p using k Cons.IH [OF rest] by (simp add: update_conv')
qed

lemma extendPure_derived:
  "k \<in> derivedKeys metrics \<Longrightarrow>
   \<exists>before c ms after.
     metrics = before @ (c, ms) # after \<and> newCounterOf c = k \<and> k \<notin> derivedKeys after \<and>
     map_of (extendPure lib g ext metrics) k =
       Some (derived lib k (foldl (acc_step lib) g (visited before)) ms)"
proof (induction metrics arbitrary: g ext)
  case Nil
  then show ?case by simp
next
  case (Cons p metrics)
  obtain c0 ms0 where p: "p = (c0, ms0)" by (cases p)
  let ?g = "foldl (acc_step lib) g ms0"
  let ?ext = "AList.update (newCounterOf c0) (derived lib (newCounterOf c0) g ms0) ext"
  show ?case
  proof (cases "k \<in> derivedKeys metrics")
    case True
    from Cons.IH [OF True, of ?g ?ext]
    obtain before c ms after where
      split: "metrics = before @ (c, ms) # after" and key: "newCounterOf c = k"
      and last: "k \<notin> derivedKeys after"
      and at: "map_of (extendPure lib ?g ?ext metrics) k =
               Some (derived lib k (foldl (acc_step lib) ?g (visited before)) ms)"
      by blast
    have "p # metrics = ((c0, ms0) # before) @ (c, ms) # after"
      using split p by simp
    moreover have "map_of (extendPure lib g ext (p # metrics)) k =
        Some (derived lib k (foldl (acc_step lib) g (visited ((c0, ms0) # before))) ms)"
      using at unfolding p by simp
    ultimately show ?thesis
      using key last by blast
  next
    case False
    with Cons.prems have key: "newCounterOf c0 = k"
      unfolding p by simp
    have "map_of (extendPure lib g ext (p # metrics)) k = map_of ?ext k"
      unfolding p using extendPure_other [OF False] by simp
    also have "\<dots> = Some (derived lib k g ms0)"
      using key by (simp add: update_conv')
    finally have "map_of (extendPure lib g ext (p # metrics)) k =
        Some (derived lib k (foldl (acc_step lib) g (visited [])) ms0)"
      by simp
    moreover have "p # metrics = [] @ (c0, ms0) # metrics"
      using p by simp
    ultimately show ?thesis
      using key False by blast
  qed
qed

lemma derived_member:
  "d \<in> set (derived lib nc g ms) \<Longrightarrow>
   \<exists>pre mv post val.
     ms = pre @ mv # post \<and> ParseFloat lib (Value mv) = Some val \<and>
     d = mv\<lparr>Counter := nc,
            Value := FormatFloat lib
              (fadd (index_float (foldl (acc_step lib) g pre) (metricFingerprint mv)) val)\<rparr>"
proof (induction ms arbitrary: g)
  case Nil
  then show ?case by simp
next
  case (Cons m0 ms)
  show ?case
  proof (cases "ParseFloat lib (Value m0)")
    case None
    with Cons.prems have "d \<in> set (derived lib nc g ms)" by simp
    from Cons.IH [OF this]
    obtain pre mv post val where
      "ms = pre @ mv # post" "ParseFloat lib (Value mv) = Some val"
      "d = mv\<lparr>Counter := nc,
             Value := FormatFloat lib
               (fadd (index_float (foldl (acc_step lib) g pre) (metricFingerprint mv)) val)\<rparr>"
      by blast
    then have "m0 # ms = (m0 # pre) @ mv # post \<and> ParseFloat lib (Value mv) = Some val \<and>
      d = mv\<lparr>Counter := nc,
             Value := FormatFloat lib
               (fadd (index_float (foldl (acc_step lib) g (m0 # pre)) (metricFingerprint mv)) val)\<rparr>"
      using None by (simp add: acc_step_None)
    then show ?thesis by blast
  next
    case (Some v0)
    show ?thesis
    proof (cases "d \<in> set (derived lib nc (acc_step lib g m0) ms)")
      case True
      from Cons.IH [OF True]
      obtain pre mv post val where
        "ms = pre @ mv # post" "ParseFloat lib (Value mv) = Some val"
        "d = mv\<lparr>Counter := nc,
               Value := FormatFloat lib
                 (fadd (index_float (foldl (acc_step lib) (acc_step lib g m0) pre)
                    (metricFingerprint mv)) val)\<rparr>"
        by blast
      then have "m0 # ms = (m0 # pre) @ mv # post \<and> ParseFloat lib (Value mv) = Some val \<and>
        d = mv\<lparr>Counter := nc,
               Value := FormatFloat lib
                 (fadd (index_float (foldl (acc_step lib) g (m0 # pre)) (metricFingerprint mv)) val)\<rparr>"
        by simp
      then show ?thesis by blast
    next
      case False
      with Cons.prems Some have
        "d = m0\<lparr>Counter := nc,
               Value := FormatFloat lib (fadd (index_float g (metricFingerprint m0)) v0)\<rparr>"
        by simp
      then have "m0 # ms = [] @ m0 # ms \<and> ParseFloat lib (Value m0) = Some v0 \<and>
        d = m0\<lparr>Counter := nc,
               Value := FormatFloat lib
                 (fadd (index_float (foldl (acc_step lib) g []) (metricFingerprint m0)) v0)\<rparr>"
        using Some by simp
      then show ?thesis by blast
    qed
  qed
qed

lemma newCounterOf_fields:
  "FieldName (newCounterOf c) = FieldName c @ ''_COUNTER''"
  "PromType (newCounterOf c) = ''counter''"
  "FieldID (newCounterOf c) = FieldID c"
  "Help (newCounterOf c) = Help c"
  by (simp_all add: newCounterOf_def)


section \<open>Facts about the concrete inputs\<close>

lemma testLib_sel [simp]:
  "ParseFloat testLib = testParseFloat"
  "FormatFloat testLib = testFormatFloat"
  "ToLower testLib = asciiLower"
  by (simp_all add: testLib_def)

lemma utilMetric_sel [simp]:
  "Value (utilMetric v) = v"
  "Counter (utilMetric v) = utilCounter"
  "Value (totalMetric v) = v"
  "Counter (totalMetric v) = utilCounterTotal"
  by (simp_all add: utilMetric_def totalMetric_def)

lemma testParseFloat_simps [simp]:
  "testParseFloat ''42'' = Some (Finite 42)"
  "testParseFloat ''84'' = Some (Finite 84)"
  "testParseFloat ''0.1'' = Some (Finite d01)"
  "testParseFloat ''0.30000000000000004'' = Some (Finite d03)"
  "testParseFloat ''N/A'' = None"
  by (simp_all add: testParseFloat_def)

lemma testFormatFloat_simps [simp]:
  "testFormatFloat (Finite 42) = ''42''"
  "testFormatFloat (Finite 84) = ''84''"
  "testFormatFloat (Finite d01) = ''0.1''"
  "testFormatFloat (Finite d02) = ''0.2''"
  "testFormatFloat (Finite d03) = ''0.30000000000000004''"
  by code_simp+

lemma fadd_simps [simp]:
  "fadd (Finite 0) (Finite 42) = Finite 42"
  "fadd (Finite 0) (Finite 84) = Finite 84"
  "fadd (Finite 42) (Finite 42) = Finite 84"
  "fadd (Finite 0) (Finite d01) = Finite d01"
  "fadd (Finite d01) (Finite d01) = Finite d02"
  "fadd (Finite d02) (Finite d01) = Finite d03"
  by code_simp+

lemma d03_not_triple: "d03 \<noteq> 3 * d01"
  by code_simp

lemma newCounterOf_util [simp]: "newCounterOf utilCounter = utilCounterTotal"
  by (simp add: newCounterOf_def utilCounter_def utilCounterTotal_def)

lemma util_neq_total [simp]: "utilCounter \<noteq> utilCounterTotal" "utilCounterTotal \<noteq> utilCounter"
  by (simp_all add: utilCounter_def utilCounterTotal_def)

lemma fingerprint_util [simp]: "metricFingerprint (utilMetric v) = utilFingerprint"
  by (simp add: metricFingerprint_def utilMetric_def utilCounter_def sortedPairs_def
      utilFingerprint_def)

lemma index_float_empty [simp]: "index_float Map.empty fp = Finite 0"
  by (simp add: index_float_def)

lemma wf_oneSeries: "wf_map (oneSeries v)"
  by (simp add: wf_map_def oneSeries_def)

lemma wf_clashing: "wf_map clashing"
  by (simp add: wf_map_def clashing_def)

lemma fingerprint_total [simp]: "metricFingerprint (totalMetric v) = totalFingerprint"
  by (simp add: metricFingerprint_def totalMetric_def utilMetric_def utilCounterTotal_def
      sortedPairs_def totalFingerprint_def)

lemma fingerprints_differ [simp]:
  "utilFingerprint \<noteq> totalFingerprint" "totalFingerprint \<noteq> utilFingerprint"
  by (simp_all add: utilFingerprint_def totalFingerprint_def)

lemma newCounterOf_total_neq [simp]:
  "newCounterOf utilCounterTotal \<noteq> utilCounter"
  "newCounterOf utilCounterTotal \<noteq> utilCounterTotal"
  "utilCounter \<noteq> newCounterOf utilCounterTotal"
  "utilCounterTotal \<noteq> newCounterOf utilCounterTotal"
  by (simp_all add: newCounterOf_def utilCounter_def utilCounterTotal_def)

lemma PromType_fixtures [simp]:
  "PromType utilCounter = ''gauge''" "PromType utilCounterTotal = ''counter''"
  by (simp_all add: utilCounter_def utilCounterTotal_def)

section \<open>The cycle\<close>






section \<open>The meter emitter\<close>

lemma OtelObserve_panics:
  assumes "PromType counter = ''counter'' \<or> PromType counter = ''gauge'' \<or>
           PromType counter = ''histogram''"
    and "instrumentOf lib m counter = None \<or> ParseFloat lib (Value metricVal) = None"
  shows "\<exists>p. OtelObserve lib m counter metricVal attrs sink = Inl p"
  using assms
  by (auto simp: OtelObserve_def instrumentOf_def lookupInstrument_def Let_def split: option.splits)

lemma OtelObserve_returns:
  assumes "instrumentOf lib m counter = Some i" and "ParseFloat lib (Value metricVal) = Some val"
  shows "\<exists>ev. OtelObserve lib m counter metricVal attrs sink =
            Inr (map (\<lambda>(k, v). (ToLower lib k, v)) attrs, sink @ [ev]) \<and>
          emitted_for lib m counter metricVal ev"
  using assms
  by (auto simp: OtelObserve_def instrumentOf_def lookupInstrument_def emitted_for_def Let_def
      split: option.splits if_splits)

lemma OtelObserve_sink:
  assumes "OtelObserve lib m counter metricVal attrs sink = Inr (attrs', sink')"
  shows "sink' = sink \<or> (\<exists>ev. sink' = sink @ [ev] \<and> emitted_for lib m counter metricVal ev)"
  using assms
  by (auto simp: OtelObserve_def instrumentOf_def lookupInstrument_def emitted_for_def Let_def
      split: option.splits if_splits)

lemma observeEach_sink:
  assumes "observeEach lib m fixed counter attrs sink ms = Inr sink'"
  shows "\<exists>new. sink' = sink @ new \<and>
           (\<forall>ev \<in> set new. \<exists>mv \<in> set ms. emitted_for lib m counter mv ev)"
  using assms
proof (induction ms arbitrary: attrs sink)
  case Nil
  then show ?case by simp
next
  case (Cons mv ms)
  from Cons.prems obtain attrs1 sink1 where
    first: "OtelObserve lib m counter mv (attrs @ fixed mv @ Labels mv @ Attributes mv) sink =
              Inr (attrs1, sink1)"
    and rest: "observeEach lib m fixed counter attrs1 sink1 ms = Inr sink'"
    by (auto split: sum.splits)
  from Cons.IH [OF rest] obtain new where
    new: "sink' = sink1 @ new"
    and src: "\<forall>ev \<in> set new. \<exists>mv \<in> set ms. emitted_for lib m counter mv ev"
    by blast
  from OtelObserve_sink [OF first] obtain one where
    one: "sink1 = sink @ one"
    and src1: "\<forall>ev \<in> set one. emitted_for lib m counter mv ev"
    by (cases "sink1 = sink") auto
  have "sink' = sink @ (one @ new)"
    using new one by simp
  moreover have "\<forall>ev \<in> set (one @ new). \<exists>x \<in> set (mv # ms). emitted_for lib m counter x ev"
    using src src1 by auto
  ultimately show ?case by blast
qed

lemma observeAll_sink:
  assumes "observeAll lib m fixed metrics sink = Inr sink'"
  shows "\<exists>new. sink' = sink @ new \<and> (\<forall>ev \<in> set new. from_grouping lib m metrics ev)"
  using assms
proof (induction metrics arbitrary: sink)
  case Nil
  then show ?case by simp
next
  case (Cons p metrics)
  obtain c ms where p: "p = (c, ms)" by (cases p)
  from Cons.prems obtain sink1 where
    first: "observeEach lib m fixed c [] sink ms = Inr sink1"
    and rest: "observeAll lib m fixed metrics sink1 = Inr sink'"
    unfolding p by (auto split: list.splits sum.splits)
  from observeEach_sink [OF first] obtain one where
    one: "sink1 = sink @ one"
    and src1: "\<forall>ev \<in> set one. \<exists>mv \<in> set ms. emitted_for lib m c mv ev"
    by blast
  from Cons.IH [OF rest] obtain new where
    new: "sink' = sink1 @ new"
    and src: "\<forall>ev \<in> set new. from_grouping lib m metrics ev"
    by blast
  have "sink' = sink @ (one @ new)"
    using new one by simp
  moreover have "\<forall>ev \<in> set (one @ new). from_grouping lib m (p # metrics) ev"
    using src src1 unfolding p from_grouping_def by auto
  ultimately show ?case by blast
qed

lemma observeAll_append:
  "observeAll lib m fixed (pre @ post) sink =
     (case observeAll lib m fixed pre sink of
        Inl p \<Rightarrow> Inl p
      | Inr sink' \<Rightarrow> observeAll lib m fixed post sink')"
proof (induction pre arbitrary: sink)
  case Nil
  show ?case by simp
next
  case (Cons p pre)
  obtain c ms where p: "p = (c, ms)" by (cases p)
  show ?case
    unfolding p using Cons.IH by (simp split: list.splits sum.splits)
qed

lemma observeAll_empty_list:
  assumes "(c, []) \<in> set metrics"
  shows "\<exists>p. observeAll lib m fixed metrics sink = Inl p"
proof -
  from assms obtain pre post where split: "metrics = pre @ (c, []) # post"
    by (auto simp: in_set_conv_decomp)
  show ?thesis
    unfolding split by (simp add: observeAll_append split: sum.splits)
qed

lemma observeAll_empty_list_reached:
  assumes "observeAll lib m fixed pre sink = Inr sink'"
  shows "observeAll lib m fixed (pre @ (c, []) # post) sink = Inl IndexOutOfRange"
  using assms by (simp add: observeAll_append)

lemma registerCounters_keeps:
  assumes "registerCounters lib meter om cs = Inr om'"
    and "lookupInstrument lib om c \<noteq> None"
  shows "lookupInstrument lib om' c \<noteq> None"
  using assms
proof (induction cs arbitrary: om)
  case Nil
  then show ?case by simp
next
  case (Cons c0 cs)
  let ?n = "ToLower lib (FieldName c0)"
  consider (gauge) "PromType c0 = ''gauge''"
    | (counter) "PromType c0 = ''counter''"
    | (histogram) "PromType c0 = ''histogram''"
    | (other) "PromType c0 \<noteq> ''gauge''" "PromType c0 \<noteq> ''counter''" "PromType c0 \<noteq> ''histogram''"
    by blast
  then show ?case
  proof cases
    case gauge
    with Cons.prems(1) obtain g where
      rest: "registerCounters lib meter (om\<lparr>Gauge := (Gauge om)(?n \<mapsto> g)\<rparr>) cs = Inr om'"
      by (auto simp: Let_def split: sum.splits)
    have "lookupInstrument lib (om\<lparr>Gauge := (Gauge om)(?n \<mapsto> g)\<rparr>) c \<noteq> None"
      using Cons.prems(2) by (auto simp: lookupInstrument_def split: if_splits)
    with rest show ?thesis by (rule Cons.IH)
  next
    case counter
    with Cons.prems(1) obtain g where
      rest: "registerCounters lib meter (om\<lparr>Counter' := (Counter' om)(?n \<mapsto> g)\<rparr>) cs = Inr om'"
      by (auto simp: Let_def split: sum.splits)
    have "lookupInstrument lib (om\<lparr>Counter' := (Counter' om)(?n \<mapsto> g)\<rparr>) c \<noteq> None"
      using Cons.prems(2) by (auto simp: lookupInstrument_def split: if_splits)
    with rest show ?thesis by (rule Cons.IH)
  next
    case histogram
    with Cons.prems(1) obtain g where
      rest: "registerCounters lib meter (om\<lparr>Histogram := (Histogram om)(?n \<mapsto> g)\<rparr>) cs = Inr om'"
      by (auto simp: Let_def split: sum.splits)
    have "lookupInstrument lib (om\<lparr>Histogram := (Histogram om)(?n \<mapsto> g)\<rparr>) c \<noteq> None"
      using Cons.prems(2) by (auto simp: lookupInstrument_def split: if_splits)
    with rest show ?thesis by (rule Cons.IH)
  next
    case other
    with Cons.prems(1) have "registerCounters lib meter om cs = Inr om'"
      by (simp add: Let_def)
    then show ?thesis using Cons.prems(2) by (rule Cons.IH)
  qed
qed

lemma registerCounters_registers:
  assumes "registerCounters lib meter om cs = Inr om'"
    and "c \<in> set cs"
    and "PromType c = ''counter'' \<or> PromType c = ''gauge'' \<or> PromType c = ''histogram''"
  shows "lookupInstrument lib om' c \<noteq> None"
  using assms(1,2)
proof (induction cs arbitrary: om)
  case Nil
  then show ?case by simp
next
  case (Cons c0 cs)
  let ?n = "ToLower lib (FieldName c0)"
  show ?case
  proof (cases "c = c0")
    case False
    with Cons.prems(2) have mem: "c \<in> set cs" by simp
    from Cons.prems(1) obtain om1 where "registerCounters lib meter om1 cs = Inr om'"
      by (auto simp: Let_def split: if_splits sum.splits)
    then show ?thesis using mem by (rule Cons.IH)
  next
    case True
    from Cons.prems(1) assms(3) obtain om1 where
      rest: "registerCounters lib meter om1 cs = Inr om'"
      and here: "lookupInstrument lib om1 c \<noteq> None"
      unfolding True
      by (auto simp: Let_def lookupInstrument_def split: if_splits sum.splits)
    then show ?thesis by (rule registerCounters_keeps)
  qed
qed

lemma NewMetricsPipeline_registry:
  assumes "NewMetricsPipeline lib cfg cs parts = Inr m" and "OtelMeter cfg = Some meter"
  shows "\<exists>om. otelMeters m = Some om \<and>
           registerCounters lib meter
             \<lparr>Gauge = Map.empty, Counter' = Map.empty, Histogram = Map.empty\<rparr> cs = Inr om"
  using assms by (auto simp: NewMetricsPipeline_def split: sum.splits)

lemma asciiLower_UTIL [simp]: "asciiLower ''UTIL'' = ''util''"
  by code_simp

lemma asciiLower_UTIL_COUNTER [simp]: "asciiLower ''UTIL_COUNTER'' = ''util_counter''"
  by code_simp

lemma NewMetricsPipeline_metered:
  "NewMetricsPipeline testLib \<lparr>OtelMeter = Some testMeter\<rparr> [utilCounter] idle = Inr metered"
  by (simp add: NewMetricsPipeline_def utilCounter_def testMeter_def metered_def utilGauge_def Let_def)

lemma instrumentOf_metered [simp]:
  "instrumentOf testLib metered utilCounter = Some utilGauge"
  "instrumentOf testLib metered utilCounterTotal = None"
  by (simp_all add: instrumentOf_def lookupInstrument_def metered_def utilCounter_def
      utilCounterTotal_def)

section \<open>The augmented grouping\<close>

text \<open>
  C5, as the claim states it, fails where the grouping already holds a counter that is the
  derived counter of another key: the derived list replaces that key's own metrics.
  Here \<open>UTIL_COUNTER\<close> came in with the value 84 and leaves with the derived value 42.
\<close>

theorem C5_original_key_overwritten:
  "map_sum id snd (extendMetrics testLib (Some Map.empty) clashing) =
     Inr [(utilCounter, [utilMetric ''42'']),
          (utilCounterTotal, [(utilMetric ''42'')\<lparr>Counter := utilCounterTotal, Value := ''42''\<rparr>]),
          (newCounterOf utilCounterTotal,
             [(totalMetric ''84'')\<lparr>Counter := newCounterOf utilCounterTotal, Value := ''84''\<rparr>])]"
  by (simp add: extendMetrics_Some clashing_def acc_step_def index_float_def del: fadd.simps)

text \<open>
  C5, amended. With the accumulator map in place and a grouping whose keys are distinct,
  the extension returns a grouping in which: every original counter has its derived
  counter as a key, the field name suffixed with \<open>_COUNTER\<close> and the type \<open>counter\<close>;
  every original key that is not the derived counter of a key of the grouping still maps
  to its own list; and every metric under a derived key is an original metric of parseable
  value, with the counter replaced by the derived one and the value by the sum, formatted,
  of the accumulator entry of its fingerprint at that moment and its parsed value.
\<close>

theorem C5_extension:
  assumes "wf_map metrics"
  shows "\<exists>g' extended.
     extendMetrics lib (Some g) metrics = Inr (Some g', extended) \<and>
     (\<forall>(c, ms) \<in> set metrics.
        (\<exists>ds. map_of extended (newCounterOf c) = Some ds) \<and>
        FieldName (newCounterOf c) = FieldName c @ ''_COUNTER'' \<and>
        PromType (newCounterOf c) = ''counter'' \<and>
        (c \<notin> derivedKeys metrics \<longrightarrow> map_of extended c = Some ms)) \<and>
     (\<forall>nc \<in> derivedKeys metrics. \<forall>ds. map_of extended nc = Some ds \<longrightarrow>
        (\<forall>d \<in> set ds. \<exists>before c pre mv post after val.
           metrics = before @ (c, pre @ mv # post) # after \<and> newCounterOf c = nc \<and>
           ParseFloat lib (Value mv) = Some val \<and>
           d = mv\<lparr>Counter := nc,
                  Value := FormatFloat lib
                    (fadd (index_float (foldl (acc_step lib) g (visited before @ pre))
                       (metricFingerprint mv)) val)\<rparr>))"
proof -
  let ?g' = "foldl (acc_step lib) g (visited metrics)"
  let ?ext = "extendPure lib g metrics metrics"
  have run: "extendMetrics lib (Some g) metrics = Inr (Some ?g', ?ext)"
    by (rule extendMetrics_Some)
  have orig: "(\<exists>ds. map_of ?ext (newCounterOf c) = Some ds) \<and>
        FieldName (newCounterOf c) = FieldName c @ ''_COUNTER'' \<and>
        PromType (newCounterOf c) = ''counter'' \<and>
        (c \<notin> derivedKeys metrics \<longrightarrow> map_of ?ext c = Some ms)"
    if mem: "(c, ms) \<in> set metrics" for c ms
  proof -
    have "newCounterOf c \<in> derivedKeys metrics"
      using mem unfolding derivedKeys_def by force
    from extendPure_derived [OF this, of lib g metrics]
    have "\<exists>ds. map_of ?ext (newCounterOf c) = Some ds" by blast
    moreover have "map_of metrics c = Some ms"
      using assms mem unfolding wf_map_def by simp
    then have "c \<notin> derivedKeys metrics \<longrightarrow> map_of ?ext c = Some ms"
      by (simp add: extendPure_other)
    ultimately show ?thesis
      by (simp add: newCounterOf_fields)
  qed
  have der: "\<exists>before c pre mv post after val.
           metrics = before @ (c, pre @ mv # post) # after \<and> newCounterOf c = nc \<and>
           ParseFloat lib (Value mv) = Some val \<and>
           d = mv\<lparr>Counter := nc,
                  Value := FormatFloat lib
                    (fadd (index_float (foldl (acc_step lib) g (visited before @ pre))
                       (metricFingerprint mv)) val)\<rparr>"
    if nc: "nc \<in> derivedKeys metrics" and at: "map_of ?ext nc = Some ds" and d: "d \<in> set ds"
    for nc ds d
  proof -
    from extendPure_derived [OF nc, of lib g metrics]
    obtain before c ms after where
      split: "metrics = before @ (c, ms) # after" and key: "newCounterOf c = nc"
      and here: "map_of ?ext nc = Some (derived lib nc (foldl (acc_step lib) g (visited before)) ms)"
      by blast
    from here at d have "d \<in> set (derived lib nc (foldl (acc_step lib) g (visited before)) ms)"
      by simp
    from derived_member [OF this]
    obtain pre mv post val where
      ms: "ms = pre @ mv # post" and val: "ParseFloat lib (Value mv) = Some val"
      and deq: "d = mv\<lparr>Counter := nc,
             Value := FormatFloat lib
               (fadd (index_float (foldl (acc_step lib) (foldl (acc_step lib) g (visited before)) pre)
                  (metricFingerprint mv)) val)\<rparr>"
      by blast
    have "metrics = before @ (c, pre @ mv # post) # after"
      using split ms by simp
    moreover have "d = mv\<lparr>Counter := nc,
             Value := FormatFloat lib
               (fadd (index_float (foldl (acc_step lib) g (visited before @ pre))
                  (metricFingerprint mv)) val)\<rparr>"
      using deq by simp
    ultimately show ?thesis
      using key val by blast
  qed
  have "\<forall>(c, ms) \<in> set metrics.
        (\<exists>ds. map_of ?ext (newCounterOf c) = Some ds) \<and>
        FieldName (newCounterOf c) = FieldName c @ ''_COUNTER'' \<and>
        PromType (newCounterOf c) = ''counter'' \<and>
        (c \<notin> derivedKeys metrics \<longrightarrow> map_of ?ext c = Some ms)"
  proof
    fix p
    assume p: "p \<in> set metrics"
    obtain c ms where eq: "p = (c, ms)" by (cases p)
    show "case p of (c, ms) \<Rightarrow>
        (\<exists>ds. map_of ?ext (newCounterOf c) = Some ds) \<and>
        FieldName (newCounterOf c) = FieldName c @ ''_COUNTER'' \<and>
        PromType (newCounterOf c) = ''counter'' \<and>
        (c \<notin> derivedKeys metrics \<longrightarrow> map_of ?ext c = Some ms)"
      using orig [of c ms] p unfolding eq by simp
  qed
  moreover have "\<forall>nc \<in> derivedKeys metrics. \<forall>ds. map_of ?ext nc = Some ds \<longrightarrow>
        (\<forall>d \<in> set ds. \<exists>before c pre mv post after val.
           metrics = before @ (c, pre @ mv # post) # after \<and> newCounterOf c = nc \<and>
           ParseFloat lib (Value mv) = Some val \<and>
           d = mv\<lparr>Counter := nc,
                  Value := FormatFloat lib
                    (fadd (index_float (foldl (acc_step lib) g (visited before @ pre))
                       (metricFingerprint mv)) val)\<rparr>)"
    using der by (intro ballI allI impI) (rule der)
  ultimately show ?thesis
    using run by (intro exI conjI)
qed

theorem C5_extension_witness:
  "wf_map (oneSeries ''42'') \<and>
   (\<exists>g' extended.
      extendMetrics testLib (Some Map.empty) (oneSeries ''42'') = Inr (Some g', extended) \<and>
      map_of extended utilCounterTotal \<noteq> None \<and>
      map_of extended utilCounter = Some [utilMetric ''42''])"
proof -
  have mem: "(utilCounter, [utilMetric ''42'']) \<in> set (oneSeries ''42'')"
    by (simp add: oneSeries_def)
  have fresh: "utilCounter \<notin> derivedKeys (oneSeries ''42'')"
    by (simp add: oneSeries_def)
  from C5_extension [OF wf_oneSeries, of testLib Map.empty "''42''"]
  obtain g' extended where
    run: "extendMetrics testLib (Some Map.empty) (oneSeries ''42'') = Inr (Some g', extended)"
    and orig: "\<forall>(c, ms) \<in> set (oneSeries ''42'').
        (\<exists>ds. map_of extended (newCounterOf c) = Some ds) \<and>
        FieldName (newCounterOf c) = FieldName c @ ''_COUNTER'' \<and>
        PromType (newCounterOf c) = ''counter'' \<and>
        (c \<notin> derivedKeys (oneSeries ''42'') \<longrightarrow> map_of extended c = Some ms)"
    by blast
  from orig mem have
    "(\<exists>ds. map_of extended (newCounterOf utilCounter) = Some ds) \<and>
     (utilCounter \<notin> derivedKeys (oneSeries ''42'') \<longrightarrow>
        map_of extended utilCounter = Some [utilMetric ''42''])"
    by blast
  with fresh have "map_of extended utilCounterTotal \<noteq> None \<and>
     map_of extended utilCounter = Some [utilMetric ''42'']"
    by auto
  with run wf_oneSeries show ?thesis
    by blast
qed

section \<open>Unparseable values\<close>



section \<open>Emission on an empty list\<close>

text \<open>
  C10. Each of the five emitters reads element 0 of every counter's list, so a grouping
  in which some counter maps to the empty list makes the emitter panic; when the entries
  visited before that counter got through, the panic is the one of the index.
\<close>

theorem C10_empty_list_panics:
  assumes "(c, []) \<in> set metrics"
  shows
    "(\<exists>p. OtelObserveGpuMetrics lib m metrics sink = Inl p) \<and>
     (\<exists>p. OtelObserveSwitchMetrics lib m metrics sink = Inl p) \<and>
     (\<exists>p. OtelObserveLinkMetrics lib m metrics sink = Inl p) \<and>
     (\<exists>p. OtelObserveCpuMetrics lib m metrics sink = Inl p) \<and>
     (\<exists>p. OtelObserveCpuCoreMetrics lib m metrics sink = Inl p) \<and>
     (\<forall>pre post s. metrics = pre @ (c, []) # post \<longrightarrow>
        (OtelObserveGpuMetrics lib m pre sink = Inr s \<longrightarrow>
           OtelObserveGpuMetrics lib m metrics sink = Inl IndexOutOfRange) \<and>
        (OtelObserveSwitchMetrics lib m pre sink = Inr s \<longrightarrow>
           OtelObserveSwitchMetrics lib m metrics sink = Inl IndexOutOfRange) \<and>
        (OtelObserveLinkMetrics lib m pre sink = Inr s \<longrightarrow>
           OtelObserveLinkMetrics lib m metrics sink = Inl IndexOutOfRange) \<and>
        (OtelObserveCpuMetrics lib m pre sink = Inr s \<longrightarrow>
           OtelObserveCpuMetrics lib m metrics sink = Inl IndexOutOfRange) \<and>
        (OtelObserveCpuCoreMetrics lib m pre sink = Inr s \<longrightarrow>
           OtelObserveCpuCoreMetrics lib m metrics sink = Inl IndexOutOfRange))"
proof -
  have panics: "\<exists>p. observeAll lib m fixed metrics sink = Inl p" for fixed
    using assms by (rule observeAll_empty_list)
  have reached: "observeAll lib m fixed metrics sink = Inl IndexOutOfRange"
    if "metrics = pre @ (c, []) # post" and "observeAll lib m fixed pre sink = Inr s"
    for fixed pre post s
    unfolding that(1) using that(2) by (rule observeAll_empty_list_reached)
  show ?thesis
    unfolding OtelObserveGpuMetrics_def OtelObserveSwitchMetrics_def OtelObserveLinkMetrics_def
      OtelObserveCpuMetrics_def OtelObserveCpuCoreMetrics_def
    using panics reached by (intro conjI allI impI) assumption+
qed

theorem C10_empty_list_panics_witness:
  "(utilCounter, []) \<in> set [(utilCounter, [])] \<and>
   OtelObserveGpuMetrics testLib metered [(utilCounter, [])] [] = Inl IndexOutOfRange \<and>
   (\<exists>p. OtelObserveCpuCoreMetrics testLib metered [(utilCounter, [])] [] = Inl p)"
proof -
  have mem: "(utilCounter, []) \<in> set [(utilCounter, [])]"
    by simp
  note all = C10_empty_list_panics [OF mem, of testLib metered "[]"]
  have "[(utilCounter, [])] = [] @ (utilCounter, []) # []"
    by simp
  moreover have "OtelObserveGpuMetrics testLib metered [] [] = Inr []"
    by (simp add: OtelObserveGpuMetrics_def)
  ultimately have "OtelObserveGpuMetrics testLib metered [(utilCounter, [])] [] = Inl IndexOutOfRange"
    using all by blast
  moreover have "\<exists>p. OtelObserveCpuCoreMetrics testLib metered [(utilCounter, [])] [] = Inl p"
    using all by blast
  ultimately show ?thesis
    using mem by (intro conjI)
qed

section \<open>Emission without an instrument or without a number\<close>

text \<open>
  C8. \<^verbatim>\<open>OtelObserve\<close> has no error to return. For a counter of type counter, gauge or
  histogram it panics when no instrument of that type is registered under the lower-cased
  field name, and when the value of the metric does not parse. In a pipeline that
  \<^verbatim>\<open>NewMetricsPipeline\<close> built with a metering backend, for a counter of the configured
  list and a value that parses, it does not panic.
\<close>

theorem C8_emitter_panics:
  "((PromType counter = ''counter'' \<or> PromType counter = ''gauge'' \<or>
     PromType counter = ''histogram'') \<and>
    (instrumentOf lib m counter = None \<or> ParseFloat lib (Value metricVal) = None)
    \<longrightarrow> (\<exists>p. OtelObserve lib m counter metricVal attrs sink = Inl p)) \<and>
   (\<forall>cfg cs parts.
      NewMetricsPipeline lib cfg cs parts = Inr m \<and> OtelMeter cfg \<noteq> None \<and>
      counter \<in> set cs \<and> ParseFloat lib (Value metricVal) \<noteq> None
      \<longrightarrow> (\<exists>r. OtelObserve lib m counter metricVal attrs sink = Inr r))"
proof (intro conjI allI impI)
  assume "(PromType counter = ''counter'' \<or> PromType counter = ''gauge'' \<or>
     PromType counter = ''histogram'') \<and>
    (instrumentOf lib m counter = None \<or> ParseFloat lib (Value metricVal) = None)"
  then show "\<exists>p. OtelObserve lib m counter metricVal attrs sink = Inl p"
    using OtelObserve_panics [of counter lib m metricVal attrs sink] by blast
next
  fix cfg cs and parts :: "'a MetricsPipeline"
  assume built: "NewMetricsPipeline lib cfg cs parts = Inr m \<and> OtelMeter cfg \<noteq> None \<and>
      counter \<in> set cs \<and> ParseFloat lib (Value metricVal) \<noteq> None"
  then obtain meter val where meter: "OtelMeter cfg = Some meter"
    and val: "ParseFloat lib (Value metricVal) = Some val"
    by auto
  from built meter obtain om where om: "otelMeters m = Some om"
    and reg: "registerCounters lib meter
             \<lparr>Gauge = Map.empty, Counter' = Map.empty, Histogram = Map.empty\<rparr> cs = Inr om"
    using NewMetricsPipeline_registry by blast
  show "\<exists>r. OtelObserve lib m counter metricVal attrs sink = Inr r"
  proof (cases "PromType counter = ''counter'' \<or> PromType counter = ''gauge'' \<or>
     PromType counter = ''histogram''")
    case True
    from built have "counter \<in> set cs" by simp
    with reg have "lookupInstrument lib om counter \<noteq> None"
      using True by (rule registerCounters_registers)
    then obtain i where "instrumentOf lib m counter = Some i"
      using om by (auto simp: instrumentOf_def)
    from OtelObserve_returns [OF this val] show ?thesis
      by blast
  next
    case False
    then show ?thesis
      by (simp add: OtelObserve_def Let_def)
  qed
qed

theorem C8_emitter_panics_witness:
  "NewMetricsPipeline testLib \<lparr>OtelMeter = Some testMeter\<rparr> [utilCounter] idle = Inr metered \<and>
   (\<exists>p. OtelObserve testLib metered utilCounter (utilMetric ''N/A'') [] [] = Inl p) \<and>
   (\<exists>p. OtelObserve testLib metered utilCounterTotal (totalMetric ''42'') [] [] = Inl p) \<and>
   (\<exists>r. OtelObserve testLib metered utilCounter (utilMetric ''42'') [] [] = Inr r)"
proof -
  have "(PromType utilCounter = ''counter'' \<or> PromType utilCounter = ''gauge'' \<or>
         PromType utilCounter = ''histogram'') \<and>
        (instrumentOf testLib metered utilCounter = None \<or>
         ParseFloat testLib (Value (utilMetric ''N/A'')) = None)"
    by simp
  then have "\<exists>p. OtelObserve testLib metered utilCounter (utilMetric ''N/A'') [] [] = Inl p"
    by (rule conjunct1 [OF C8_emitter_panics, rule_format])
  moreover have "(PromType utilCounterTotal = ''counter'' \<or> PromType utilCounterTotal = ''gauge'' \<or>
         PromType utilCounterTotal = ''histogram'') \<and>
        (instrumentOf testLib metered utilCounterTotal = None \<or>
         ParseFloat testLib (Value (totalMetric ''42'')) = None)"
    by simp
  then have "\<exists>p. OtelObserve testLib metered utilCounterTotal (totalMetric ''42'') [] [] = Inl p"
    by (rule conjunct1 [OF C8_emitter_panics, rule_format])
  moreover have "\<exists>r. OtelObserve testLib metered utilCounter (utilMetric ''42'') [] [] = Inr r"
  proof -
    have "NewMetricsPipeline testLib \<lparr>OtelMeter = Some testMeter\<rparr> [utilCounter] idle = Inr metered \<and>
      OtelMeter \<lparr>OtelMeter = Some testMeter\<rparr> \<noteq> None \<and> utilCounter \<in> set [utilCounter] \<and>
      ParseFloat testLib (Value (utilMetric ''42'')) \<noteq> None"
      by (simp add: NewMetricsPipeline_metered)
    then show ?thesis
      by (rule conjunct2 [OF C8_emitter_panics, rule_format])
  qed
  ultimately show ?thesis
    using NewMetricsPipeline_metered by (intro conjI)
qed

end
